theory Spec2Isabelle
  imports Complex_Main
begin

section \<open>Numbers of the Go program\<close>

text \<open>
  \<^verbatim>\<open>torrent2http.go\<close> computes with Go \<^verbatim>\<open>int\<close>, \<^verbatim>\<open>float32\<close> and \<^verbatim>\<open>float64\<close>.
  Piece indices and counts are Go \<^verbatim>\<open>int\<close>s that come from the engine (C \<^verbatim>\<open>int\<close>s there);
  they are modelled as \<^typ>\<open>int\<close>. A finite floating-point value is modelled by the real
  number it denotes. Every floating-point operation of the source is the exact operation
  followed by a rounding to the format; the rounding functions are parameters of the
  model (record \<open>platform\<close>), and the only facts used about a \<^verbatim>\<open>float64\<close> rounding are the
  two every IEEE-754 rounding mode has (\<open>float64_rounding\<close>): it is monotone, and it
  leaves the integers of magnitude at most \<open>2^53\<close> unchanged. Go leaves the conversion
  of a \<^verbatim>\<open>float64\<close> that does not fit an \<^verbatim>\<open>int\<close> to the implementation: that result is
  the parameter \<open>int_of_oor\<close>.
\<close>

record platform =
  rnd64 :: "real \<Rightarrow> real"
  rnd32 :: "real \<Rightarrow> real"
  int_of_oor :: "real \<Rightarrow> int"

definition float64_rounding :: "(real \<Rightarrow> real) \<Rightarrow> bool" where
  "float64_rounding r \<longleftrightarrow>
     (\<forall>x y. x \<le> y \<longrightarrow> r x \<le> r y) \<and>
     (\<forall>i::int. \<bar>i\<bar> \<le> 2 ^ 53 \<longrightarrow> r (of_int i) = of_int i)"

text \<open>The platform on which no result needs rounding (every result is representable).\<close>

definition exact_platform :: platform where
  "exact_platform = \<lparr>rnd64 = id, rnd32 = id, int_of_oor = (\<lambda>_. - (2 ^ 63))\<rparr>"

text \<open>\<^verbatim>\<open>float64(i)\<close> for an \<^verbatim>\<open>int\<close> \<open>i\<close>.\<close>

definition float64_of_int :: "platform \<Rightarrow> int \<Rightarrow> real" where
  "float64_of_int p i = rnd64 p (of_int i)"

text \<open>
  \<^verbatim>\<open>int(x)\<close> for a \<^verbatim>\<open>float64\<close> \<open>x\<close>: the fraction is discarded (truncation towards
  zero) when the result fits the 64-bit \<^verbatim>\<open>int\<close>.
\<close>

definition trunc_zero :: "real \<Rightarrow> int" where
  "trunc_zero x = (if 0 \<le> x then \<lfloor>x\<rfloor> else \<lceil>x\<rceil>)"

definition int_of_float64 :: "platform \<Rightarrow> real \<Rightarrow> int" where
  "int_of_float64 p x =
     (if - (2 ^ 63) \<le> trunc_zero x \<and> trunc_zero x < 2 ^ 63 then trunc_zero x else int_of_oor p x)"

text \<open>\<^verbatim>\<open>math.Ceil\<close> and \<^verbatim>\<open>math.Max\<close> are exact on finite values.\<close>

definition math_Ceil :: "real \<Rightarrow> real" where
  "math_Ceil x = of_int \<lceil>x\<rceil>"

definition math_Max :: "real \<Rightarrow> real \<Rightarrow> real" where
  "math_Max x y = max x y"

section \<open>The process state and its effects\<close>

text \<open>\<^verbatim>\<open>Config\<close> (lines 45-58): the values of the command-line flags.\<close>

record Config =
  uri :: string
  bindAddress :: string
  maxUploadRate :: int
  maxDownloadRate :: int
  downloadPath :: string
  keepFiles :: bool
  encryption :: int
  noSparseFile :: bool
  idleTimeout :: int
  portLower :: int
  portUpper :: int
  buffer :: real

text \<open>
  The engine is outside the program. What a call of the engine returns is an input of the
  model: a \<open>torrent_status\<close> is what \<^verbatim>\<open>torrentHandle.Status()\<close> answers at the
  moment of the call, a \<open>Torrent_handle\<close> what the handle answers (\<^verbatim>\<open>Name()\<close>,
  \<^verbatim>\<open>Save_path()\<close>, and the paths \<^verbatim>\<open>File_at(i).GetPath()\<close> for \<open>i < Num_files()\<close> of
  \<^verbatim>\<open>Get_torrent_info()\<close>).
\<close>

record torrent_status =
  GetHas_metadata :: bool
  GetIs_seeding :: bool
  GetIs_finished :: bool
  GetState :: int
  GetProgress :: real
  GetDownload_rate :: int
  GetUpload_rate :: int
  GetNum_peers :: int
  GetNum_incomplete :: int
  GetNum_seeds :: int
  GetNum_complete :: int

record Torrent_handle =
  Status :: torrent_status
  handle_Name :: string
  Save_path :: string
  File_paths :: "string list"

text \<open>
  What the program does to the engine, the file system and the process is a list of
  events, in the order of the calls: a log line, a call of the engine or of a library
  (its name and arguments), \<^verbatim>\<open>os.RemoveAll(path.Join(a, b))\<close>, \<^verbatim>\<open>time.Sleep\<close> (in seconds), a \<^verbatim>\<open>go\<close>
  statement, \<^verbatim>\<open>http.ListenAndServe\<close>, \<^verbatim>\<open>flag.Usage\<close>, \<^verbatim>\<open>log.Fatal\<close> and \<^verbatim>\<open>os.Exit\<close>.
  \<open>func\<close> names the functions of the source that a \<^verbatim>\<open>go\<close> statement could start.
\<close>

datatype func = go_handleSignals | go_watchParent | go_inactiveAutoShutdown | go_shutdown | go_ensureSeeding

datatype arg = I int | S string | B bool | Handle

datatype event =
    Log string
  | Call string "arg list"
  | RemoveAll string string
  | Sleep nat
  | Go func
  | ListenAndServe string
  | Usage
  | Fatal
  | Exit int

text \<open>
  How far a run of a function has come: the process has exited with a status, the function
  has returned, or it is still running (in a loop that the model runs on fuel).
\<close>

datatype outcome = Exited int | Returned | Running

text \<open>
  The body of a response is modelled as the JSON value that \<^verbatim>\<open>json.Marshal\<close> encodes:
  for a struct, an object with the keys of the \<^verbatim>\<open>json\<close> tags in the order of the fields.
  A handler that calls \<^verbatim>\<open>w.Write\<close> without \<^verbatim>\<open>w.WriteHeader\<close> answers with status 200.
\<close>

datatype json =
    JNull
  | JString string
  | JInt int
  | JFloat real
  | JArray "json list"
  | JObject "(string \<times> json) list"

record response =
  resp_Header :: "(string \<times> string) list"
  resp_code :: nat
  resp_body :: json

subsection \<open>Concrete inputs\<close>

text \<open>
  The defaults of the flags (lines 210-221) with a magnet link, and a torrent of two files.
  The default \<^verbatim>\<open>0.01\<close> of \<^verbatim>\<open>-buffer\<close> is written \<open>1 / 100\<close>; the \<^verbatim>\<open>float64\<close> nearest to it gives
  the same piece counts in the examples below.
\<close>

definition default_config :: Config where
  "default_config =
     \<lparr>uri = ''magnet:?xt=urn:btih:c12fe1c06bba254a9dc9f519b335aa7c1367a88a'', bindAddress = '':5001'',
      maxUploadRate = 0, maxDownloadRate = 0, downloadPath = ''.'', keepFiles = False,
      encryption = 1, noSparseFile = False, idleTimeout = - 1, portLower = 6900,
      portUpper = 6999, buffer = 1 / 100\<rparr>"

definition downloading_status :: torrent_status where
  "downloading_status =
     \<lparr>GetHas_metadata = True, GetIs_seeding = False, GetIs_finished = False, GetState = 3,
      GetProgress = 1 / 2, GetDownload_rate = 250000, GetUpload_rate = 8000, GetNum_peers = 12,
      GetNum_incomplete = 40, GetNum_seeds = 5, GetNum_complete = 90\<rparr>"

definition example_handle :: Torrent_handle where
  "example_handle =
     \<lparr>Status = downloading_status, handle_Name = ''movie'', Save_path = ''.'',
      File_paths = [''movie/a.mkv'', ''movie/b.mkv'']\<rparr>"

definition one_alert_then_none :: "nat \<Rightarrow> string option" where
  "one_alert_then_none i = (if i = 0 then Some ''torrent_deleted_alert'' else None)"

definition keep_config :: Config where
  "keep_config = default_config\<lparr>keepFiles := True\<rparr>"

definition no_metadata_handle :: Torrent_handle where
  "no_metadata_handle =
     example_handle\<lparr>Status := downloading_status\<lparr>GetHas_metadata := False\<rparr>\<rparr>"

text \<open>An idle timeout of 5 seconds.\<close>

definition idle_config :: Config where
  "idle_config = default_config\<lparr>idleTimeout := 5\<rparr>"

section \<open>The file listing: \<^verbatim>\<open>lsHandler\<close>\<close>

text \<open>
  \<^verbatim>\<open>FileStatusInfo\<close> (lines 21-27), and what the handler reads of a file of the torrent
  file system: \<^verbatim>\<open>file.Name()\<close>, \<^verbatim>\<open>file.Size()\<close>, \<^verbatim>\<open>file.Offset()\<close>, \<^verbatim>\<open>file.Pieces()\<close>.
\<close>

record FileStatusInfo =
  fi_Name :: string
  fi_Size :: int
  fi_Offset :: int
  fi_TotalPieces :: int
  fi_Buffer :: real

record torrent_file =
  file_Name :: string
  file_Size :: int
  file_Offset :: int
  file_Pieces :: "int \<times> int"

text \<open>
  Lines 122-125: \<^verbatim>\<open>for piece := 0; piece < pieces; piece++ { buffer += float64(Get_piece_progress(h, piece)) }\<close>.
  The engine's answer for a piece is the function \<open>progress\<close> (a \<^verbatim>\<open>float32\<close>, so its
  conversion to \<^verbatim>\<open>float64\<close> is exact).
\<close>

function buffer_loop :: "platform \<Rightarrow> (int \<Rightarrow> real) \<Rightarrow> int \<Rightarrow> int \<Rightarrow> real \<Rightarrow> real" where
  "buffer_loop p progress pieces piece buf =
     (if piece < pieces
      then buffer_loop p progress pieces (piece + 1) (rnd64 p (buf + progress piece))
      else buf)"
  by pat_completeness auto
termination
  by (relation "measure (\<lambda>(p, progress, pieces, piece, buf). nat (pieces - piece))") auto

declare buffer_loop.simps [simp del]

text \<open>Lines 118-121: the number of pieces the buffer is computed from.\<close>

definition buffer_pieces :: "platform \<Rightarrow> Config \<Rightarrow> int \<Rightarrow> int \<Rightarrow> int" where
  "buffer_pieces p config startPiece endPiece =
     (let pieces = int_of_float64 p
            (math_Ceil (rnd64 p (buffer config * float64_of_int p (endPiece - startPiece))))
      in if pieces < 1 then 1 else pieces)"

text \<open>Lines 116-134: the body of the loop over the files, for one file.\<close>

definition file_status :: "platform \<Rightarrow> Config \<Rightarrow> (int \<Rightarrow> real) \<Rightarrow> torrent_file \<Rightarrow> FileStatusInfo" where
  "file_status p config progress file =
     (let (startPiece, endPiece) = file_Pieces file;
          pieces = buffer_pieces p config startPiece endPiece;
          buf = buffer_loop p progress pieces 0 0;
          buf = rnd64 p (buf / float64_of_int p pieces)
      in \<lparr>fi_Name = file_Name file,
          fi_Size = file_Size file,
          fi_Offset = file_Offset file,
          fi_TotalPieces = int_of_float64 p (math_Max (float64_of_int p (endPiece - startPiece)) 1),
          fi_Buffer = buf\<rparr>)"

text \<open>Lines 113-136: \<^verbatim>\<open>retFiles.Files = append(retFiles.Files, fi)\<close> for every file, in order.\<close>

fun ls_loop :: "platform \<Rightarrow> Config \<Rightarrow> (int \<Rightarrow> real) \<Rightarrow> torrent_file list \<Rightarrow>
    FileStatusInfo list \<Rightarrow> FileStatusInfo list" where
  "ls_loop p config progress [] retFiles = retFiles"
| "ls_loop p config progress (file # files) retFiles =
     ls_loop p config progress files (retFiles @ [file_status p config progress file])"

definition lsHandler_files :: "platform \<Rightarrow> Config \<Rightarrow> (int \<Rightarrow> real) \<Rightarrow> torrent_file list \<Rightarrow>
    FileStatusInfo list" where
  "lsHandler_files p config progress files = ls_loop p config progress files []"

text \<open>
  Lines 108-140: the response. \<open>files\<close> is what \<^verbatim>\<open>dir.TFSReaddir(-1)\<close> returns for the root
  of the torrent file system. \<^verbatim>\<open>retFiles.Files\<close> stays a nil slice when there is no file,
  and \<^verbatim>\<open>json.Marshal\<close> encodes a nil slice as \<^verbatim>\<open>null\<close>.
\<close>

definition Marshal_FileStatusInfo :: "FileStatusInfo \<Rightarrow> json" where
  "Marshal_FileStatusInfo fi =
     JObject [(''name'', JString (fi_Name fi)),
              (''size'', JInt (fi_Size fi)),
              (''offset'', JInt (fi_Offset fi)),
              (''total_pieces'', JInt (fi_TotalPieces fi)),
              (''buffer'', JFloat (fi_Buffer fi))]"

definition Marshal_LsInfo :: "FileStatusInfo list \<Rightarrow> json" where
  "Marshal_LsInfo retFiles =
     JObject [(''files'', if retFiles = [] then JNull
                          else JArray (map Marshal_FileStatusInfo retFiles))]"

definition lsHandler :: "platform \<Rightarrow> Config \<Rightarrow> (int \<Rightarrow> real) \<Rightarrow> torrent_file list \<Rightarrow> response" where
  "lsHandler p config progress files =
     \<lparr>resp_Header = [(''Content-Type'', ''application/json'')],
      resp_code = 200,
      resp_body = Marshal_LsInfo (lsHandler_files p config progress files)\<rparr>"

text \<open>
  The claimed buffer readiness, in the words of the specification: the arithmetic mean of
  the completion fractions of the first \<open>max(ceil(bufferFraction * (endPiece - startPiece)), 1)\<close>
  pieces of the file's own range, starting at \<open>startPiece\<close>.
\<close>

definition spec_buffer_readiness :: "real \<Rightarrow> (int \<Rightarrow> real) \<Rightarrow> int \<Rightarrow> int \<Rightarrow> real" where
  "spec_buffer_readiness bufferFraction progress startPiece endPiece =
     (let pieceCount = max \<lceil>bufferFraction * of_int (endPiece - startPiece)\<rceil> 1
      in sum_list (map (\<lambda>k. progress (startPiece + int k)) [0..<nat pieceCount]) / of_int pieceCount)"

text \<open>
  A torrent of two files of one piece each, of which the engine has the first piece and
  nothing of the second.
\<close>

definition two_files :: "torrent_file list" where
  "two_files =
     [\<lparr>file_Name = ''a.mkv'', file_Size = 1000, file_Offset = 0, file_Pieces = (0, 1)\<rparr>,
      \<lparr>file_Name = ''b.mkv'', file_Size = 1000, file_Offset = 1000, file_Pieces = (1, 2)\<rparr>]"

definition first_piece_done :: "int \<Rightarrow> real" where
  "first_piece_done piece = (if piece = 0 then 1 else 0)"

subsection \<open>Properties of the listing\<close>

lemma ls_loop_map:
  "ls_loop p b progress files acc = acc @ map (file_status p b progress) files"
  by (induction files arbitrary: acc) simp_all

lemma lsHandler_files_map:
  "lsHandler_files p b progress files = map (file_status p b progress) files"
  by (simp add: lsHandler_files_def ls_loop_map)

lemma ceiling_hundredth: "\<lceil>1 / 100 :: real\<rceil> = 1"
  by (rule ceiling_unique) simp_all

lemma exact_rounding: "float64_rounding (rnd64 exact_platform)"
  by (simp add: float64_rounding_def exact_platform_def)

lemma trunc_zero_of_int: "trunc_zero (of_int i) = i"
  by (simp add: trunc_zero_def)

lemma rounding_int: "float64_rounding r \<Longrightarrow> \<bar>i\<bar> \<le> 2 ^ 53 \<Longrightarrow> r (of_int i) = of_int i"
  by (simp add: float64_rounding_def)

lemma rounding_mono: "float64_rounding r \<Longrightarrow> x \<le> y \<Longrightarrow> r x \<le> r y"
  by (simp add: float64_rounding_def)

lemma rounding_0: "float64_rounding r \<Longrightarrow> r 0 = 0"
  using rounding_int [of r 0] by simp

lemma rounding_1: "float64_rounding r \<Longrightarrow> r 1 = 1"
  using rounding_int [of r 1] by simp

lemma total_pieces_max:
  assumes r: "float64_rounding (rnd64 p)" and d: "\<bar>endPiece - startPiece\<bar> \<le> 2 ^ 53"
  shows "int_of_float64 p (math_Max (float64_of_int p (endPiece - startPiece)) 1) = max (endPiece - startPiece) 1"
proof -
  define d where "d = endPiece - startPiece"
  have f: "float64_of_int p d = of_int d"
    using rounding_int [OF r, of d] d by (simp only: float64_of_int_def d_def)
  have m: "math_Max (of_int d) 1 = of_int (max d 1)"
    by (simp add: math_Max_def max_def)
  have b: "- (2 ^ 63) \<le> max d 1 \<and> max d 1 < 2 ^ 63"
    using d by (simp add: max_def abs_le_iff d_def)
  have "int_of_float64 p (math_Max (float64_of_int p d) 1) = max d 1"
    using b by (simp add: f m int_of_float64_def trunc_zero_of_int)
  then show ?thesis by (simp only: d_def)
qed

lemma buffer_loop_bounds:
  assumes r: "float64_rounding (rnd64 p)"
    and pr: "\<forall>k. 0 \<le> progress k \<and> progress k \<le> 1"
    and n: "pieces \<le> 2 ^ 53"
  shows "0 \<le> piece \<Longrightarrow> piece \<le> pieces \<Longrightarrow> 0 \<le> buf \<Longrightarrow> buf \<le> of_int piece \<Longrightarrow>
         0 \<le> buffer_loop p progress pieces piece buf \<and>
         buffer_loop p progress pieces piece buf \<le> of_int pieces"
  using r pr n
proof (induction p progress pieces piece buf rule: buffer_loop.induct)
  case (1 p progress pieces piece buf)
  show ?case
  proof (cases "piece < pieces")
    case False
    with "1.prems" have "piece = pieces" by simp
    have "buffer_loop p progress pieces piece buf = buf"
      using False by (subst buffer_loop.simps) simp
    with \<open>piece = pieces\<close> "1.prems" show ?thesis by simp
  next
    case True
    let ?b = "rnd64 p (buf + progress piece)"
    have p0: "0 \<le> progress piece" and p1: "progress piece \<le> 1"
      using "1.prems" by auto
    have "0 \<le> buf + progress piece" using \<open>0 \<le> buf\<close> p0 by simp
    then have "rnd64 p 0 \<le> ?b"
      using "1.prems" by (rule_tac rounding_mono [of "rnd64 p"]) simp_all
    then have lo: "0 \<le> ?b" using rounding_0 [of "rnd64 p"] "1.prems" by simp
    have "\<bar>piece + 1\<bar> \<le> 2 ^ 53" using True "1.prems" by simp
    then have e: "rnd64 p (of_int (piece + 1)) = of_int (piece + 1)"
      using rounding_int "1.prems" by blast
    have "buf + progress piece \<le> of_int (piece + 1)"
      using \<open>buf \<le> of_int piece\<close> p1 by simp
    then have "?b \<le> rnd64 p (of_int (piece + 1))"
      using "1.prems" by (rule_tac rounding_mono [of "rnd64 p"]) simp_all
    then have hi: "?b \<le> of_int (piece + 1)" using e by simp
    have "0 \<le> buffer_loop p progress pieces (piece + 1) ?b \<and>
          buffer_loop p progress pieces (piece + 1) ?b \<le> of_int pieces"
      using True "1.prems" lo hi by (intro "1.IH") auto
    moreover have "buffer_loop p progress pieces piece buf = buffer_loop p progress pieces (piece + 1) ?b"
      using True by (subst buffer_loop.simps) simp
    ultimately show ?thesis by simp
  qed
qed

lemma buffer_pieces_ge1: "1 \<le> buffer_pieces p b s e"
  by (simp add: buffer_pieces_def Let_def)

lemma file_status_buffer_unit:
  assumes r: "float64_rounding (rnd64 p)"
    and pr: "\<forall>k. 0 \<le> progress k \<and> progress k \<le> 1"
    and n: "buffer_pieces p b (fst (file_Pieces file)) (snd (file_Pieces file)) \<le> 2 ^ 53"
  shows "0 \<le> fi_Buffer (file_status p b progress file) \<and> fi_Buffer (file_status p b progress file) \<le> 1"
proof -
  define pieces where "pieces = buffer_pieces p b (fst (file_Pieces file)) (snd (file_Pieces file))"
  define s where "s = buffer_loop p progress pieces 0 0"
  have ge: "1 \<le> pieces" by (simp add: pieces_def buffer_pieces_ge1)
  have le: "pieces \<le> 2 ^ 53" using n by (simp add: pieces_def)
  have fp: "float64_of_int p pieces = of_int pieces"
    using rounding_int [OF r, of pieces] ge le by (simp add: float64_of_int_def)
  have sb: "0 \<le> s \<and> s \<le> of_int pieces"
    unfolding s_def using ge by (intro buffer_loop_bounds [OF r pr le]) auto
  have q: "0 \<le> s / of_int pieces \<and> s / of_int pieces \<le> 1"
    using sb ge by (simp add: divide_le_eq_1)
  have "rnd64 p 0 \<le> rnd64 p (s / of_int pieces) \<and> rnd64 p (s / of_int pieces) \<le> rnd64 p 1"
    using q rounding_mono [OF r] by blast
  then have res: "0 \<le> rnd64 p (s / of_int pieces) \<and> rnd64 p (s / of_int pieces) \<le> 1"
    by (simp add: rounding_0 [OF r] rounding_1 [OF r])
  have "fi_Buffer (file_status p b progress file) = rnd64 p (s / float64_of_int p pieces)"
    by (simp add: file_status_def Let_def split_beta pieces_def s_def)
  then show ?thesis using res fp by simp
qed

text \<open>
  C1. The claim is that a file's buffer readiness is the mean completion of the leading
  pieces of the file's own range. The loop of \<^verbatim>\<open>lsHandler\<close> asks the engine for the
  pieces \<open>0 .. pieces - 1\<close> of the torrent instead: with the default buffer fraction
  \<open>0.01\<close>, the second of two one-piece files is reported fully buffered (\<open>1\<close>) because
  piece \<open>0\<close>, which belongs to the first file, is complete, although its own piece \<open>1\<close>
  has completion \<open>0\<close>, which is the readiness the claim gives.
\<close>

theorem lsHandler_buffer_reads_torrent_start:
  "map fi_Buffer (lsHandler_files exact_platform default_config first_piece_done two_files) = [1, 1] \<and>
   spec_buffer_readiness (1 / 100) first_piece_done 1 2 = 0"
  by (simp add: lsHandler_files_map two_files_def file_status_def buffer_pieces_def
      float64_of_int_def exact_platform_def math_Ceil_def int_of_float64_def trunc_zero_def
      buffer_loop.simps first_piece_done_def spec_buffer_readiness_def ceiling_hundredth
      default_config_def)

text \<open>
  C7. For every file of the listing, \<open>total_pieces\<close> is \<open>max (endPiece - startPiece) 1\<close>:
  the \<open>i\<close>-th entry of the listing is that of the \<open>i\<close>-th file, and its
  \<^verbatim>\<open>TotalPieces\<close> is the maximum of the file's range length and \<open>1\<close>, so never \<open>0\<close>.
  (Range lengths are piece counts of the engine, far below \<open>2^53\<close>, up to which the
  conversion to \<^verbatim>\<open>float64\<close> is exact.)
\<close>

theorem lsHandler_total_pieces:
  assumes "float64_rounding (rnd64 p)"
    and "i < length files"
    and "file_Pieces (files ! i) = (startPiece, endPiece)"
    and "\<bar>endPiece - startPiece\<bar> \<le> 2 ^ 53"
  shows "length (lsHandler_files p config progress files) = length files \<and>
         fi_TotalPieces (lsHandler_files p config progress files ! i) =
           max (endPiece - startPiece) 1 \<and>
         fi_TotalPieces (lsHandler_files p config progress files ! i) \<noteq> 0"
proof -
  have "fi_TotalPieces (file_status p config progress (files ! i)) =
        max (endPiece - startPiece) 1"
    using assms(3) total_pieces_max [OF assms(1) assms(4)]
    by (simp add: file_status_def Let_def)
  then show ?thesis
    using assms(2) by (simp add: lsHandler_files_map)
qed

theorem lsHandler_total_pieces_witness:
  "fi_TotalPieces (lsHandler_files exact_platform default_config first_piece_done
       [\<lparr>file_Name = ''empty'', file_Size = 0, file_Offset = 0, file_Pieces = (7, 7)\<rparr>] ! 0) = 1"
  using lsHandler_total_pieces [OF exact_rounding, of 0
      "[\<lparr>file_Name = ''empty'', file_Size = 0, file_Offset = 0, file_Pieces = (7, 7)\<rparr>]" 7 7
      default_config first_piece_done]
  by simp

text \<open>
  C8. If every completion fraction the engine reports lies in \<open>[0, 1]\<close>, the buffer
  readiness of every file of the listing lies in \<open>[0, 1]\<close>, whatever the rounding of the
  floating-point sum and quotient. (The number of pieces summed is at most \<open>2^53\<close>: a
  longer loop would not end in a lifetime.)
\<close>

theorem lsHandler_buffer_unit_interval:
  assumes "float64_rounding (rnd64 p)"
    and "\<forall>piece. 0 \<le> progress piece \<and> progress piece \<le> 1"
    and "\<forall>file \<in> set files.
           buffer_pieces p config (fst (file_Pieces file)) (snd (file_Pieces file)) \<le> 2 ^ 53"
  shows "\<forall>fi \<in> set (lsHandler_files p config progress files).
           0 \<le> fi_Buffer fi \<and> fi_Buffer fi \<le> 1"
  using assms file_status_buffer_unit [of p progress config]
  by (auto simp: lsHandler_files_map)

theorem lsHandler_buffer_unit_interval_witness:
  "(\<forall>piece. 0 \<le> first_piece_done piece \<and> first_piece_done piece \<le> 1) \<and>
   list_all (\<lambda>fi. 0 \<le> fi_Buffer fi \<and> fi_Buffer fi \<le> 1)
     (lsHandler_files exact_platform default_config first_piece_done two_files)"
proof -
  have pr: "\<forall>piece. 0 \<le> first_piece_done piece \<and> first_piece_done piece \<le> 1"
    by (simp add: first_piece_done_def)
  have n: "\<forall>file \<in> set two_files.
      buffer_pieces exact_platform default_config (fst (file_Pieces file)) (snd (file_Pieces file)) \<le> 2 ^ 53"
    by (simp add: two_files_def buffer_pieces_def float64_of_int_def exact_platform_def
        math_Ceil_def int_of_float64_def trunc_zero_def default_config_def)
  show ?thesis
    using pr lsHandler_buffer_unit_interval [OF exact_rounding pr n]
    by (simp add: list_all_iff)
qed

section \<open>The status: \<^verbatim>\<open>statusHandler\<close>\<close>

text \<open>\<^verbatim>\<open>SessionStatus\<close> (lines 33-43).\<close>

record SessionStatus =
  ss_Name :: string
  ss_State :: int
  ss_Progress :: real
  ss_DownloadRate :: real
  ss_UploadRate :: real
  ss_NumPeers :: int
  ss_NumSeeds :: int
  ss_TotalSeeds :: int
  ss_TotalPeers :: int

definition Marshal_SessionStatus :: "SessionStatus \<Rightarrow> json" where
  "Marshal_SessionStatus status =
     JObject [(''name'', JString (ss_Name status)),
              (''state'', JInt (ss_State status)),
              (''progress'', JFloat (ss_Progress status)),
              (''download_rate'', JFloat (ss_DownloadRate status)),
              (''upload_rate'', JFloat (ss_UploadRate status)),
              (''num_peers'', JInt (ss_NumPeers status)),
              (''num_seeds'', JInt (ss_NumSeeds status)),
              (''total_seeds'', JInt (ss_TotalSeeds status)),
              (''total_peers'', JInt (ss_TotalPeers status))]"

text \<open>
  Lines 87-102. A nil torrent handle is \<open>None\<close>. The fields that the composite literal
  \<^verbatim>\<open>SessionStatus{State: -1}\<close> leaves out have the zero value of their type.
\<close>

definition session_status :: "platform \<Rightarrow> Torrent_handle option \<Rightarrow> SessionStatus" where
  "session_status p torrentHandle =
     (case torrentHandle of
        None \<Rightarrow>
          \<lparr>ss_Name = '''', ss_State = - 1, ss_Progress = 0, ss_DownloadRate = 0,
           ss_UploadRate = 0, ss_NumPeers = 0, ss_NumSeeds = 0, ss_TotalSeeds = 0,
           ss_TotalPeers = 0\<rparr>
      | Some h \<Rightarrow>
          (let tstatus = Status h
           in \<lparr>ss_Name = handle_Name h,
               ss_State = GetState tstatus,
               ss_Progress = GetProgress tstatus,
               ss_DownloadRate = rnd32 p (rnd32 p (of_int (GetDownload_rate tstatus)) / 1000),
               ss_UploadRate = rnd32 p (rnd32 p (of_int (GetUpload_rate tstatus)) / 1000),
               ss_NumPeers = GetNum_peers tstatus,
               ss_NumSeeds = GetNum_seeds tstatus,
               ss_TotalSeeds = GetNum_complete tstatus,
               ss_TotalPeers = GetNum_incomplete tstatus\<rparr>))"

text \<open>Lines 84-106.\<close>

definition statusHandler :: "platform \<Rightarrow> Torrent_handle option \<Rightarrow> response" where
  "statusHandler p torrentHandle =
     \<lparr>resp_Header = [(''Content-Type'', ''application/json'')],
      resp_code = 200,
      resp_body = Marshal_SessionStatus (session_status p torrentHandle)\<rparr>"

text \<open>
  C9. While there is no torrent handle, \<^verbatim>\<open>GET /status\<close> answers with status 200 and a
  JSON status whose \<open>state\<close> is \<open>-1\<close> and whose other fields are zero (the empty name,
  \<open>0\<close>). With a handle, the status carries the engine's name, state and progress, its
  download and upload rates divided by 1000, and its counts of peers and seeds
  (\<open>total_seeds\<close> and \<open>total_peers\<close> are the engine's complete and incomplete counts).
\<close>

theorem statusHandler_response:
  "statusHandler p None =
     \<lparr>resp_Header = [(''Content-Type'', ''application/json'')], resp_code = 200,
      resp_body = JObject [(''name'', JString ''''), (''state'', JInt (- 1)),
        (''progress'', JFloat 0), (''download_rate'', JFloat 0), (''upload_rate'', JFloat 0),
        (''num_peers'', JInt 0), (''num_seeds'', JInt 0), (''total_seeds'', JInt 0),
        (''total_peers'', JInt 0)]\<rparr> \<and>
   statusHandler p (Some h) =
     \<lparr>resp_Header = [(''Content-Type'', ''application/json'')], resp_code = 200,
      resp_body = JObject [(''name'', JString (handle_Name h)),
        (''state'', JInt (GetState (Status h))),
        (''progress'', JFloat (GetProgress (Status h))),
        (''download_rate'', JFloat (rnd32 p (rnd32 p (of_int (GetDownload_rate (Status h))) / 1000))),
        (''upload_rate'', JFloat (rnd32 p (rnd32 p (of_int (GetUpload_rate (Status h))) / 1000))),
        (''num_peers'', JInt (GetNum_peers (Status h))),
        (''num_seeds'', JInt (GetNum_seeds (Status h))),
        (''total_seeds'', JInt (GetNum_complete (Status h))),
        (''total_peers'', JInt (GetNum_incomplete (Status h)))]\<rparr>"
  by (simp add: statusHandler_def session_status_def Marshal_SessionStatus_def Let_def)

lemma statusHandler_example:
  "resp_body (statusHandler exact_platform (Some example_handle)) =
     JObject [(''name'', JString ''movie''), (''state'', JInt 3), (''progress'', JFloat (1 / 2)),
        (''download_rate'', JFloat 250), (''upload_rate'', JFloat 8),
        (''num_peers'', JInt 12), (''num_seeds'', JInt 5), (''total_seeds'', JInt 90),
        (''total_peers'', JInt 40)]"
  by (simp add: statusHandler_def session_status_def Marshal_SessionStatus_def Let_def
      example_handle_def downloading_status_def exact_platform_def)

section \<open>Shutdown: \<^verbatim>\<open>stopServices\<close>, \<^verbatim>\<open>removeFiles\<close>, \<^verbatim>\<open>shutdown\<close>\<close>

text \<open>Lines 156-168.\<close>

definition stopServices :: "event list" where
  "stopServices =
     [Log ''Stopping DHT...'', Call ''Stop_dht'' [],
      Log ''Stopping LSD...'', Call ''Stop_lsd'' [],
      Log ''Stopping UPNP...'', Call ''Stop_upnp'' [],
      Log ''Stopping NATPMP...'', Call ''Stop_natpmp'' []]"

text \<open>
  Lines 170-179. The early return when the status has no metadata, then one
  \<^verbatim>\<open>os.RemoveAll\<close> for every file of the torrent info, by index.
\<close>

function removeFiles_loop :: "Torrent_handle \<Rightarrow> nat \<Rightarrow> event list" where
  "removeFiles_loop h i =
     (if i < length (File_paths h)
      then RemoveAll (Save_path h) (File_paths h ! i) # removeFiles_loop h (i + 1)
      else [])"
  by pat_completeness auto
termination
  by (relation "measure (\<lambda>(h, i). length (File_paths h) - i)") auto

declare removeFiles_loop.simps [simp del]

definition removeFiles :: "Torrent_handle \<Rightarrow> event list" where
  "removeFiles h =
     (if GetHas_metadata (Status h) = False then [] else removeFiles_loop h 0)"

text \<open>
  Lines 192-199: the wait for the engine's alerts. The \<open>i\<close>-th round of the loop sees
  \<open>alerts i\<close>: \<open>None\<close> when \<^verbatim>\<open>Wait_for_alert(Seconds(30))\<close> returns the null alert (its
  \<^verbatim>\<open>Swigcptr()\<close> is 0), \<open>Some what\<close> when an alert is pending and \<^verbatim>\<open>Pop_alert2().What()\<close>
  is \<open>what\<close>. The loop has no bound of its own, so the model runs it on fuel (a number
  of rounds): the result is the events so far and whether the loop has been left.
\<close>

fun wait_loop :: "nat \<Rightarrow> (nat \<Rightarrow> string option) \<Rightarrow> nat \<Rightarrow> event list \<times> bool" where
  "wait_loop 0 alerts i = ([], False)"
| "wait_loop (Suc fuel) alerts i =
     (case alerts i of
        None \<Rightarrow> ([Call ''Wait_for_alert'' [I 30]], True)
      | Some what \<Rightarrow>
          if what = ''cache_flushed_alert''
          then ([Call ''Wait_for_alert'' [I 30], Call ''Pop_alert2'' []], True)
          else (let (tr, exited) = wait_loop fuel alerts (i + 1)
                in ([Call ''Wait_for_alert'' [I 30], Call ''Pop_alert2'' []] @ tr, exited)))"

text \<open>
  Lines 181-206. \<open>h\<close> is what the torrent handle answers when \<^verbatim>\<open>removeFiles\<close> runs.
  \<^verbatim>\<open>main\<close> assigns the session and the handle (lines 379, 386) before it starts any
  task that calls \<^verbatim>\<open>shutdown\<close> (lines 402-405), so neither is nil here. The outcome is
  \<open>Exited 0\<close> after \<^verbatim>\<open>os.Exit(0)\<close>, or \<open>Running\<close> when the fuel ended inside the loop.
\<close>

definition shutdown :: "nat \<Rightarrow> Config \<Rightarrow> Torrent_handle \<Rightarrow> (nat \<Rightarrow> string option) \<Rightarrow>
    event list \<times> outcome" where
  "shutdown fuel config h alerts =
     (let tr = [Log ''Stopping torrent2http...''] @ stopServices @ [Log ''Removing torrent...'']
      in if keepFiles config = False
         then (let tr = tr @ [Call ''Set_alert_mask'' [S ''AlertStorage_notification''],
                              Call ''Remove_torrent'' [Handle, I 1],
                              Log ''Waiting for files to be removed...''];
                   (w, exited) = wait_loop fuel alerts 0
               in if exited
                  then (tr @ w @ removeFiles h @ [Log ''Bye bye'', Exit 0], Exited 0)
                  else (tr @ w, Running))
         else (tr @ [Log ''Bye bye'', Exit 0], Exited 0))"

text \<open>The two ways out of the loop: no alert pending, or the alert \<^verbatim>\<open>cache_flushed_alert\<close>.\<close>

definition loop_exit :: "string option \<Rightarrow> bool" where
  "loop_exit a \<longleftrightarrow> a = None \<or> a = Some ''cache_flushed_alert''"

lemma wait_loop_events:
  "set (fst (wait_loop fuel alerts i)) \<subseteq> {Call ''Wait_for_alert'' [I 30], Call ''Pop_alert2'' []}"
proof (induction fuel arbitrary: i)
  case 0
  then show ?case by simp
next
  case (Suc fuel)
  have "set (fst (wait_loop fuel alerts (i + 1)))
      \<subseteq> {Call ''Wait_for_alert'' [I 30], Call ''Pop_alert2'' []}"
    by (rule Suc.IH)
  then show ?case
    by (cases "wait_loop fuel alerts (i + 1)") (auto split: option.splits)
qed

lemma wait_loop_exits:
  "loop_exit (alerts (i + k)) \<Longrightarrow> k < fuel \<Longrightarrow> snd (wait_loop fuel alerts i)"
proof (induction fuel arbitrary: i k)
  case 0
  then show ?case by simp
next
  case (Suc fuel)
  show ?case
  proof (cases k)
    case 0
    with Suc.prems show ?thesis
      by (auto simp: loop_exit_def split: option.splits prod.splits)
  next
    case (Suc k')
    with Suc.prems have "snd (wait_loop fuel alerts (i + 1))"
      using Suc.IH [of "i + 1" k'] by simp
    then show ?thesis
      by (auto split: option.splits prod.splits)
  qed
qed

lemma removeFiles_loop_events:
  "removeFiles_loop h i = map (RemoveAll (Save_path h)) (drop i (File_paths h))"
proof (induction h i rule: removeFiles_loop.induct)
  case (1 h i)
  show ?case
  proof (cases "i < length (File_paths h)")
    case True
    then have "removeFiles_loop h i = RemoveAll (Save_path h) (File_paths h ! i) # removeFiles_loop h (i + 1)"
      by (subst removeFiles_loop.simps) simp
    moreover have "drop i (File_paths h) = File_paths h ! i # drop (Suc i) (File_paths h)"
      using True by (simp add: Cons_nth_drop_Suc)
    ultimately show ?thesis using True "1.IH" by simp
  next
    case False
    then have "removeFiles_loop h i = []"
      by (subst removeFiles_loop.simps) simp
    with False show ?thesis by simp
  qed
qed

lemma removeFiles_events: "set (removeFiles h) \<subseteq> RemoveAll (Save_path h) ` set (File_paths h)"
  by (auto simp: removeFiles_def removeFiles_loop_events)

subsection \<open>Properties of shutdown\<close>

definition shutdown_begin :: "event list" where
  "shutdown_begin = [Log ''Stopping torrent2http...''] @ stopServices @ [Log ''Removing torrent...'']"

lemma before_first_occurrence:
  "P @ R = before @ x # after \<Longrightarrow> x \<notin> set P \<Longrightarrow> set P \<subseteq> set before"
  by (auto simp: append_eq_append_conv2 append_eq_Cons_conv)

lemma shutdown_begins:
  "\<exists>R. fst (shutdown fuel config h alerts) = shutdown_begin @ R"
  by (cases "wait_loop fuel alerts 0") (simp add: shutdown_def shutdown_begin_def Let_def)

lemma stops_in_begin:
  "{Call ''Stop_dht'' [], Call ''Stop_lsd'' [], Call ''Stop_upnp'' [],
    Call ''Stop_natpmp'' []} \<subseteq> set shutdown_begin"
  by (simp add: shutdown_begin_def stopServices_def)

lemma no_removal_in_begin: "Call ''Remove_torrent'' args \<notin> set shutdown_begin"
  by (simp add: shutdown_begin_def stopServices_def)

lemma shutdown_exits:
  assumes "keepFiles config = False" and "loop_exit (alerts k)" and "k < fuel"
  shows "\<exists>w. shutdown fuel config h alerts =
           (shutdown_begin @
            [Call ''Set_alert_mask'' [S ''AlertStorage_notification''],
             Call ''Remove_torrent'' [Handle, I 1],
             Log ''Waiting for files to be removed...''] @
            w @ removeFiles h @ [Log ''Bye bye'', Exit 0], Exited 0) \<and>
           set w \<subseteq> {Call ''Wait_for_alert'' [I 30], Call ''Pop_alert2'' []}"
proof -
  obtain w exited where w: "wait_loop fuel alerts 0 = (w, exited)"
    by (cases "wait_loop fuel alerts 0")
  have "snd (wait_loop fuel alerts 0)"
    using wait_loop_exits [of alerts 0 k fuel] assms by simp
  with w have e: "exited" by simp
  have "set w \<subseteq> {Call ''Wait_for_alert'' [I 30], Call ''Pop_alert2'' []}"
    using wait_loop_events [of fuel alerts 0] w by simp
  then show ?thesis
    using assms(1) w e by (simp add: shutdown_def shutdown_begin_def Let_def)
qed

text \<open>
  C5. In every run of \<^verbatim>\<open>shutdown\<close>, however far it has come, the four discovery services
  (DHT, LSD, UPNP, NATPMP) have been stopped before the removal of the torrent is
  requested. When keep-files is off and the wait loop is left in round \<open>k\<close>, either
  because no alert was pending after the 30 seconds or because the alert was
  \<^verbatim>\<open>cache_flushed_alert\<close>, the run goes on with \<^verbatim>\<open>removeFiles\<close> and then exits with
  status 0; the loop itself only waits for and pops alerts.
\<close>

theorem shutdown_stops_before_removal_and_always_deletes:
  "(\<forall>before args after.
      fst (shutdown fuel config h alerts) = before @ Call ''Remove_torrent'' args # after \<longrightarrow>
      {Call ''Stop_dht'' [], Call ''Stop_lsd'' [], Call ''Stop_upnp'' [],
       Call ''Stop_natpmp'' []} \<subseteq> set before) \<and>
   (keepFiles config = False \<and> loop_exit (alerts k) \<and> k < fuel \<longrightarrow>
      (\<exists>w. shutdown fuel config h alerts =
           ([Log ''Stopping torrent2http...''] @ stopServices @
            [Log ''Removing torrent...'',
             Call ''Set_alert_mask'' [S ''AlertStorage_notification''],
             Call ''Remove_torrent'' [Handle, I 1],
             Log ''Waiting for files to be removed...''] @
            w @ removeFiles h @ [Log ''Bye bye'', Exit 0], Exited 0) \<and>
           set w \<subseteq> {Call ''Wait_for_alert'' [I 30], Call ''Pop_alert2'' []}))"
proof (intro conjI allI impI)
  fix before args after
  assume eq: "fst (shutdown fuel config h alerts) = before @ Call ''Remove_torrent'' args # after"
  obtain R where "fst (shutdown fuel config h alerts) = shutdown_begin @ R"
    using shutdown_begins by blast
  with eq have "shutdown_begin @ R = before @ Call ''Remove_torrent'' args # after" by simp
  then have "set shutdown_begin \<subseteq> set before"
    using no_removal_in_begin by (rule before_first_occurrence)
  with stops_in_begin show "{Call ''Stop_dht'' [], Call ''Stop_lsd'' [], Call ''Stop_upnp'' [],
       Call ''Stop_natpmp'' []} \<subseteq> set before" by blast
next
  assume "keepFiles config = False \<and> loop_exit (alerts k) \<and> k < fuel"
  then show "\<exists>w. shutdown fuel config h alerts =
           ([Log ''Stopping torrent2http...''] @ stopServices @
            [Log ''Removing torrent...'',
             Call ''Set_alert_mask'' [S ''AlertStorage_notification''],
             Call ''Remove_torrent'' [Handle, I 1],
             Log ''Waiting for files to be removed...''] @
            w @ removeFiles h @ [Log ''Bye bye'', Exit 0], Exited 0) \<and>
           set w \<subseteq> {Call ''Wait_for_alert'' [I 30], Call ''Pop_alert2'' []}"
    using shutdown_exits [of config alerts k fuel h] by (simp add: shutdown_begin_def)
qed

lemma removeFiles_example:
  "removeFiles example_handle = [RemoveAll ''.'' ''movie/a.mkv'', RemoveAll ''.'' ''movie/b.mkv'']"
  by (simp add: removeFiles_def removeFiles_loop_events example_handle_def downloading_status_def)

theorem shutdown_stops_before_removal_and_always_deletes_witness:
  "keepFiles default_config = False \<and> loop_exit (one_alert_then_none 1) \<and>
   shutdown 2 default_config example_handle one_alert_then_none =
     ([Log ''Stopping torrent2http...'',
       Log ''Stopping DHT...'', Call ''Stop_dht'' [],
       Log ''Stopping LSD...'', Call ''Stop_lsd'' [],
       Log ''Stopping UPNP...'', Call ''Stop_upnp'' [],
       Log ''Stopping NATPMP...'', Call ''Stop_natpmp'' [],
       Log ''Removing torrent...'',
       Call ''Set_alert_mask'' [S ''AlertStorage_notification''],
       Call ''Remove_torrent'' [Handle, I 1],
       Log ''Waiting for files to be removed...'',
       Call ''Wait_for_alert'' [I 30], Call ''Pop_alert2'' [],
       Call ''Wait_for_alert'' [I 30],
       RemoveAll ''.'' ''movie/a.mkv'', RemoveAll ''.'' ''movie/b.mkv'',
       Log ''Bye bye'', Exit 0], Exited 0)"
proof -
  have k: "keepFiles default_config = False" by (simp add: default_config_def)
  have l: "loop_exit (one_alert_then_none 1)" by (simp add: loop_exit_def one_alert_then_none_def)
  have w: "wait_loop 2 one_alert_then_none 0 =
      ([Call ''Wait_for_alert'' [I 30], Call ''Pop_alert2'' [], Call ''Wait_for_alert'' [I 30]], True)"
    by (simp add: numeral_2_eq_2 one_alert_then_none_def)
  have "\<exists>w. shutdown 2 default_config example_handle one_alert_then_none =
           ([Log ''Stopping torrent2http...''] @ stopServices @
            [Log ''Removing torrent...'',
             Call ''Set_alert_mask'' [S ''AlertStorage_notification''],
             Call ''Remove_torrent'' [Handle, I 1],
             Log ''Waiting for files to be removed...''] @
            w @ removeFiles example_handle @ [Log ''Bye bye'', Exit 0], Exited 0) \<and>
           set w \<subseteq> {Call ''Wait_for_alert'' [I 30], Call ''Pop_alert2'' []}"
    using shutdown_stops_before_removal_and_always_deletes
      [of 2 default_config example_handle one_alert_then_none 1] k l by simp
  then show ?thesis
    using k l w by (simp add: shutdown_def Let_def stopServices_def removeFiles_example)
qed

text \<open>
  C6. With keep-files on, \<^verbatim>\<open>shutdown\<close> stops the four services and exits with status 0:
  it requests no removal of the torrent, waits for no alert and deletes no file. Its
  only events are log lines, the four stops and \<^verbatim>\<open>os.Exit(0)\<close>.
\<close>

theorem shutdown_keepFiles:
  assumes "keepFiles config = True"
  shows "shutdown fuel config h alerts =
           ([Log ''Stopping torrent2http...''] @ stopServices @
            [Log ''Removing torrent...'', Log ''Bye bye'', Exit 0], Exited 0) \<and>
         (\<forall>e \<in> set (fst (shutdown fuel config h alerts)).
            (\<exists>msg. e = Log msg) \<or>
            e \<in> {Call ''Stop_dht'' [], Call ''Stop_lsd'' [], Call ''Stop_upnp'' [],
                  Call ''Stop_natpmp'' []} \<or>
            e = Exit 0)"
  using assms by (auto simp: shutdown_def stopServices_def)

theorem shutdown_keepFiles_witness:
  "keepFiles keep_config = True \<and>
   shutdown 0 keep_config example_handle one_alert_then_none =
     ([Log ''Stopping torrent2http...'',
       Log ''Stopping DHT...'', Call ''Stop_dht'' [],
       Log ''Stopping LSD...'', Call ''Stop_lsd'' [],
       Log ''Stopping UPNP...'', Call ''Stop_upnp'' [],
       Log ''Stopping NATPMP...'', Call ''Stop_natpmp'' [],
       Log ''Removing torrent...'', Log ''Bye bye'', Exit 0], Exited 0)"
proof -
  have k: "keepFiles keep_config = True" by (simp add: keep_config_def)
  show ?thesis
    using k shutdown_keepFiles [OF k, of 0 example_handle one_alert_then_none]
    by (simp add: stopServices_def)
qed

lemma shutdown_RemoveAll_from_removeFiles:
  "RemoveAll a b \<in> set (fst (shutdown fuel config h alerts)) \<Longrightarrow> RemoveAll a b \<in> set (removeFiles h)"
  using wait_loop_events [of fuel alerts 0]
  by (cases "wait_loop fuel alerts 0")
    (auto simp: shutdown_def Let_def stopServices_def split: if_splits)

text \<open>
  C10. When the status of the torrent handle reports no metadata, \<^verbatim>\<open>removeFiles\<close>
  returns at once and deletes nothing, so no run of \<^verbatim>\<open>shutdown\<close> removes any path.
\<close>

theorem removeFiles_without_metadata:
  assumes "GetHas_metadata (Status h) = False"
  shows "removeFiles h = [] \<and>
         (\<forall>a b. RemoveAll a b \<notin> set (fst (shutdown fuel config h alerts)))"
proof -
  have r: "removeFiles h = []" using assms by (simp add: removeFiles_def)
  then show ?thesis using shutdown_RemoveAll_from_removeFiles [of _ _ fuel config h alerts] by auto
qed

theorem removeFiles_without_metadata_witness:
  "GetHas_metadata (Status no_metadata_handle) = False \<and>
   File_paths no_metadata_handle = [''movie/a.mkv'', ''movie/b.mkv''] \<and>
   removeFiles no_metadata_handle = [] \<and>
   shutdown 1 default_config no_metadata_handle (\<lambda>i. None) =
     ([Log ''Stopping torrent2http...'',
       Log ''Stopping DHT...'', Call ''Stop_dht'' [],
       Log ''Stopping LSD...'', Call ''Stop_lsd'' [],
       Log ''Stopping UPNP...'', Call ''Stop_upnp'' [],
       Log ''Stopping NATPMP...'', Call ''Stop_natpmp'' [],
       Log ''Removing torrent...'',
       Call ''Set_alert_mask'' [S ''AlertStorage_notification''],
       Call ''Remove_torrent'' [Handle, I 1],
       Log ''Waiting for files to be removed...'',
       Call ''Wait_for_alert'' [I 30],
       Log ''Bye bye'', Exit 0], Exited 0)"
proof -
  have m: "GetHas_metadata (Status no_metadata_handle) = False"
    by (simp add: no_metadata_handle_def)
  have r: "removeFiles no_metadata_handle = []"
    using removeFiles_without_metadata [OF m] by simp
  show ?thesis
    using m r
    by (simp add: shutdown_def Let_def stopServices_def default_config_def)
      (simp add: no_metadata_handle_def example_handle_def)
qed

section \<open>Start-up: \<^verbatim>\<open>main\<close> and the functions it calls\<close>

text \<open>Lines 142-154.\<close>

definition startServices :: "event list" where
  "startServices =
     [Log ''Starting DHT...'', Call ''Start_dht'' [],
      Log ''Starting LSD...'', Call ''Start_lsd'' [],
      Log ''Starting UPNP...'', Call ''Start_upnp'' [],
      Log ''Starting NATPMP...'', Call ''Start_natpmp'' []]"

text \<open>Lines 232-263.\<close>

definition configureSession :: "Config \<Rightarrow> event list" where
  "configureSession config =
     [Call ''Settings'' [],
      Log ''Setting Session settings...'',
      Call ''SetUser_agent'' [S ''''],
      Call ''SetRequest_timeout'' [I 5],
      Call ''SetPeer_connect_timeout'' [I 2],
      Call ''SetAnnounce_to_all_trackers'' [B True],
      Call ''SetAnnounce_to_all_tiers'' [B True],
      Call ''SetConnection_speed'' [I 100]] @
     (if maxDownloadRate config > 0
      then [Call ''SetDownload_rate_limit'' [I (maxDownloadRate config * 1024)]] else []) @
     (if maxUploadRate config > 0
      then [Call ''SetUpload_rate_limit'' [I (maxUploadRate config * 1024)]] else []) @
     [Call ''SetTorrent_connect_boost'' [I 100],
      Call ''SetRate_limit_ip_overhead'' [B True],
      Call ''Set_settings'' [],
      Log ''Setting Encryption settings...'',
      Call ''NewPe_settings'' [],
      Call ''SetOut_enc_policy'' [I (encryption config)],
      Call ''SetIn_enc_policy'' [I (encryption config)],
      Call ''SetAllowed_enc_level'' [S ''Pe_settingsBoth''],
      Call ''SetPrefer_rc4'' [B True],
      Call ''Set_pe_settings'' []]"

text \<open>
  Lines 290-311. The idle monitor is started only for a positive idle timeout; the last
  call, \<^verbatim>\<open>http.ListenAndServe\<close>, serves requests for as long as the process lives.
\<close>

definition startHTTP :: "Config \<Rightarrow> event list" where
  "startHTTP config =
     [Log ''Starting HTTP Server...'',
      Call ''NewServeMux'' [],
      Call ''HandleFunc'' [S ''/status''],
      Call ''HandleFunc'' [S ''/ls''],
      Call ''Handle'' [S ''/files/''],
      Call ''Handle'' [S ''/shutdown'']] @
     (if idleTimeout config > 0 then [Go go_inactiveAutoShutdown] else []) @
     [Log (''Listening HTTP on '' @ bindAddress config @ ''...''),
      ListenAndServe (bindAddress config)]"

text \<open>
  Lines 348-406, with \<^verbatim>\<open>parseFlags\<close> (lines 208-230) inlined: \<open>config\<close> holds the parsed
  flags, and an empty \<^verbatim>\<open>uri\<close> prints the usage and exits with status 1. \<open>parsed_uri\<close> is
  the result of \<^verbatim>\<open>url.Parse(config.uri)\<close>: \<open>None\<close> for an error (then \<^verbatim>\<open>log.Fatal\<close>), else
  the scheme and the path. \<open>numCPU\<close> is \<^verbatim>\<open>runtime.NumCPU()\<close> and \<open>name\<close> the name of the
  torrent that the handle reports.
\<close>

definition main :: "Config \<Rightarrow> (string \<times> string) option \<Rightarrow> int \<Rightarrow> string \<Rightarrow> event list" where
  "main config parsed_uri numCPU name =
     [Call ''GOMAXPROCS'' [I numCPU]] @
     (if uri config = '''' then [Usage, Exit 1]
      else
        [Call ''NewAdd_torrent_params'' []] @
        (case parsed_uri of
           None \<Rightarrow> [Fatal]
         | Some (scheme, path) \<Rightarrow>
             (if scheme = ''file''
              then [Log (''Opening local file '' @ path),
                    Call ''NewTorrent_info'' [S path], Call ''SetTi'' []]
              else [Log ''Fetching link'', Call ''SetUrl'' [S (uri config)]]) @
             [Log ''Setting save path'', Call ''SetSave_path'' [S (downloadPath config)]] @
             (if noSparseFile config
              then [Log ''Disabling sparse file support...'',
                    Call ''SetStorage_mode'' [S ''Storage_mode_allocate'']]
              else []) @
             [Log ''Starting BT engine...'',
              Call ''NewSession'' [],
              Call ''Listen_on'' [I (portLower config), I (portUpper config)]] @
             configureSession config @
             startServices @
             [Log ''Adding torrent'', Call ''Add_torrent'' [],
              Log ''Enabling sequential download'', Call ''Set_sequential_download'' [B True],
              Log (''Downloading: '' @ name),
              Call ''NewTorrentFS'' [Handle],
              Go go_handleSignals,
              Go go_watchParent] @
             startHTTP config))"

section \<open>The seeding watcher: \<^verbatim>\<open>ensureSeeding\<close>\<close>

text \<open>
  Lines 334-340: the polling loop. The \<open>i\<close>-th poll sees the status \<open>statuses i\<close>; between
  two polls the watcher sleeps one second. The loop runs until the engine reports the
  torrent seeding or finished, so the model runs it on fuel (a number of polls).
\<close>

fun ensureSeeding_poll :: "nat \<Rightarrow> (nat \<Rightarrow> torrent_status) \<Rightarrow> nat \<Rightarrow> event list \<times> bool" where
  "ensureSeeding_poll 0 statuses i = ([], False)"
| "ensureSeeding_poll (Suc fuel) statuses i =
     (let tstatus = statuses i
      in if GetIs_seeding tstatus \<or> GetIs_finished tstatus then ([], True)
         else (let (tr, seeding) = ensureSeeding_poll fuel statuses (i + 1)
               in (Sleep 1 # tr, seeding)))"

text \<open>Lines 342-345: \<^verbatim>\<open>Piece_priority(i, 1)\<close> for every piece \<open>i < numPieces\<close>.\<close>

function set_priorities :: "int \<Rightarrow> int \<Rightarrow> event list" where
  "set_priorities numPieces i =
     (if i < numPieces
      then Call ''Piece_priority'' [I i, I 1] # set_priorities numPieces (i + 1)
      else [])"
  by pat_completeness auto
termination
  by (relation "measure (\<lambda>(numPieces, i). nat (numPieces - i))") auto

declare set_priorities.simps [simp del]

text \<open>Lines 332-346. The outcome is \<open>Returned\<close>, or \<open>Running\<close> when the fuel ended in the loop.\<close>

definition ensureSeeding :: "nat \<Rightarrow> (nat \<Rightarrow> torrent_status) \<Rightarrow> int \<Rightarrow> event list \<times> outcome" where
  "ensureSeeding fuel statuses numPieces =
     (let (polls, seeding) = ensureSeeding_poll fuel statuses 0
      in if seeding
         then ([Log ''Starting seeding watcher''] @ polls @
               [Log ''Now seeding, setting priorities''] @ set_priorities numPieces 0, Returned)
         else ([Log ''Starting seeding watcher''] @ polls, Running))"

text \<open>The first poll at which the engine reports the torrent seeding or finished.\<close>

definition done_status :: "torrent_status \<Rightarrow> bool" where
  "done_status tstatus \<longleftrightarrow> GetIs_seeding tstatus \<or> GetIs_finished tstatus"

definition first_done :: "(nat \<Rightarrow> torrent_status) \<Rightarrow> nat \<Rightarrow> bool" where
  "first_done statuses k \<longleftrightarrow> done_status (statuses k) \<and> (\<forall>j < k. \<not> done_status (statuses j))"

lemma set_priorities_upto:
  "set_priorities numPieces i = map (\<lambda>piece. Call ''Piece_priority'' [I piece, I 1]) [i..numPieces - 1]"
proof (induction numPieces i rule: set_priorities.induct)
  case (1 numPieces i)
  show ?case
  proof (cases "i < numPieces")
    case True
    then have "set_priorities numPieces i =
        Call ''Piece_priority'' [I i, I 1] # set_priorities numPieces (i + 1)"
      by (subst set_priorities.simps) simp
    moreover have "[i..numPieces - 1] = i # [i + 1..numPieces - 1]"
      using True by (simp add: upto_rec1)
    ultimately show ?thesis using True "1.IH" by simp
  next
    case False
    then have "set_priorities numPieces i = []"
      by (subst set_priorities.simps) simp
    with False show ?thesis by simp
  qed
qed

lemma poll_done:
  "done_status (statuses (i + k)) \<Longrightarrow> \<forall>j < k. \<not> done_status (statuses (i + j)) \<Longrightarrow> k < fuel \<Longrightarrow>
   ensureSeeding_poll fuel statuses i = (replicate k (Sleep 1), True)"
proof (induction fuel arbitrary: i k)
  case 0
  then show ?case by simp
next
  case (Suc fuel)
  show ?case
  proof (cases k)
    case 0
    with Suc.prems show ?thesis by (simp add: done_status_def)
  next
    case (Suc k')
    have n: "\<not> done_status (statuses i)" using Suc.prems(2) Suc by force
    have "ensureSeeding_poll fuel statuses (i + 1) = (replicate k' (Sleep 1), True)"
    proof (rule Suc.IH)
      show "done_status (statuses (i + 1 + k'))" using Suc.prems(1) Suc by simp
      show "\<forall>j<k'. \<not> done_status (statuses (i + 1 + j))"
        using Suc.prems(2) Suc by (metis Suc_less_eq add_Suc_right add_Suc_shift plus_1_eq_Suc add.commute)
      show "k' < fuel" using Suc.prems(3) Suc by simp
    qed
    with n Suc show ?thesis by (simp add: done_status_def)
  qed
qed

lemma poll_running:
  "\<forall>j < fuel. \<not> done_status (statuses (i + j)) \<Longrightarrow>
   ensureSeeding_poll fuel statuses i = (replicate fuel (Sleep 1), False)"
proof (induction fuel arbitrary: i)
  case 0
  then show ?case by simp
next
  case (Suc fuel)
  have n: "\<not> done_status (statuses i)" using Suc.prems by force
  have "\<forall>j<fuel. \<not> done_status (statuses (i + 1 + j))"
  proof (intro allI impI)
    fix j assume "j < fuel"
    then have "\<not> done_status (statuses (i + Suc j))" using Suc.prems by blast
    then show "\<not> done_status (statuses (i + 1 + j))" by simp
  qed
  then have "ensureSeeding_poll fuel statuses (i + 1) = (replicate fuel (Sleep 1), False)"
    by (rule Suc.IH)
  with n show ?case by (simp add: done_status_def)
qed

text \<open>The tasks that a run starts with \<^verbatim>\<open>go\<close> statements, in order.\<close>

fun started :: "event list \<Rightarrow> func list" where
  "started [] = []"
| "started (Go f # tr) = f # started tr"
| "started (e # tr) = started tr"

text \<open>A torrent that the engine reports as seeding from the third poll on.\<close>

definition seeding_from_third_poll :: "nat \<Rightarrow> torrent_status" where
  "seeding_from_third_poll i =
     (if i < 2 then downloading_status else downloading_status\<lparr>GetIs_seeding := True\<rparr>)"

subsection \<open>Properties of start-up and of the watcher\<close>

lemma started_append: "started (xs @ ys) = started xs @ started ys"
  by (induction xs rule: started.induct) simp_all

lemma started_startHTTP:
  "started (startHTTP config) = (if idleTimeout config > 0 then [go_inactiveAutoShutdown] else [])"
  by (simp add: startHTTP_def)

lemma started_main:
  "set (started (main config parsed_uri numCPU name))
     \<subseteq> {go_handleSignals, go_watchParent, go_inactiveAutoShutdown}"
  by (auto simp: main_def started_append started_startHTTP configureSession_def startServices_def
      split: option.splits if_splits)

text \<open>
  C3, as claimed: in every execution of the process a background watcher polls the engine
  and resets the priorities. A run of \<^verbatim>\<open>main\<close> with the default flags and a magnet link
  starts the tasks \<^verbatim>\<open>handleSignals\<close> and \<^verbatim>\<open>watchParent\<close> (and \<^verbatim>\<open>inactiveAutoShutdown\<close> with
  a positive idle timeout) and no other: \<^verbatim>\<open>ensureSeeding\<close> is not started.
\<close>

theorem main_starts_no_seeding_watcher:
  "started (main default_config (Some (''magnet'', '''')) 4 ''movie'') =
     [go_handleSignals, go_watchParent] \<and>
   started (main (default_config\<lparr>idleTimeout := 60\<rparr>) (Some (''magnet'', '''')) 4 ''movie'') =
     [go_handleSignals, go_watchParent, go_inactiveAutoShutdown]"
  by (simp add: main_def started_append started_startHTTP configureSession_def startServices_def
      default_config_def)

text \<open>
  C3, amended: a run of \<^verbatim>\<open>ensureSeeding\<close> polls the status of the torrent, sleeping one
  second after every poll that finds it neither seeding nor finished. When the poll
  number \<open>k\<close> is the first to find it seeding or finished, the watcher has slept \<open>k\<close>
  times; it then sets the priority of every piece \<open>0 .. numPieces - 1\<close> to \<open>1\<close>, each
  once, and returns. Before that poll it has set no priority.
\<close>

theorem ensureSeeding_sets_priorities_once:
  assumes "first_done statuses k"
  shows "(k < fuel \<longrightarrow>
          ensureSeeding fuel statuses numPieces =
            ([Log ''Starting seeding watcher''] @ replicate k (Sleep 1) @
             [Log ''Now seeding, setting priorities''] @
             map (\<lambda>piece. Call ''Piece_priority'' [I piece, I 1]) [0..numPieces - 1],
             Returned)) \<and>
         (fuel \<le> k \<longrightarrow>
          ensureSeeding fuel statuses numPieces =
            ([Log ''Starting seeding watcher''] @ replicate fuel (Sleep 1), Running))"
proof (intro conjI impI)
  assume "k < fuel"
  then have "ensureSeeding_poll fuel statuses 0 = (replicate k (Sleep 1), True)"
    using assms poll_done [of statuses 0 k fuel] by (simp add: first_done_def)
  then show "ensureSeeding fuel statuses numPieces =
            ([Log ''Starting seeding watcher''] @ replicate k (Sleep 1) @
             [Log ''Now seeding, setting priorities''] @
             map (\<lambda>piece. Call ''Piece_priority'' [I piece, I 1]) [0..numPieces - 1],
             Returned)"
    by (simp add: ensureSeeding_def set_priorities_upto)
next
  assume "fuel \<le> k"
  then have "ensureSeeding_poll fuel statuses 0 = (replicate fuel (Sleep 1), False)"
    using assms poll_running [of fuel statuses 0] by (simp add: first_done_def)
  then show "ensureSeeding fuel statuses numPieces =
            ([Log ''Starting seeding watcher''] @ replicate fuel (Sleep 1), Running)"
    by (simp add: ensureSeeding_def)
qed

theorem ensureSeeding_sets_priorities_once_witness:
  "first_done seeding_from_third_poll 2 \<and>
   ensureSeeding 5 seeding_from_third_poll 3 =
     ([Log ''Starting seeding watcher'', Sleep 1, Sleep 1,
       Log ''Now seeding, setting priorities'',
       Call ''Piece_priority'' [I 0, I 1], Call ''Piece_priority'' [I 1, I 1],
       Call ''Piece_priority'' [I 2, I 1]], Returned) \<and>
   ensureSeeding 1 seeding_from_third_poll 3 =
     ([Log ''Starting seeding watcher'', Sleep 1], Running)"
proof -
  have f: "first_done seeding_from_third_poll 2"
    by (auto simp: first_done_def done_status_def seeding_from_third_poll_def downloading_status_def)
  have u: "[0..2::int] = [0, 1, 2]" by (simp add: upto_rec1)
  show ?thesis
    using f ensureSeeding_sets_priorities_once [OF f, of 5 3]
      ensureSeeding_sets_priorities_once [OF f, of 1 3]
    by (simp add: u numeral_2_eq_2)
qed

section \<open>The idle monitor: \<^verbatim>\<open>inactiveAutoShutdown\<close>\<close>

text \<open>
  Time is counted in nanoseconds, as \<^verbatim>\<open>time.Duration\<close> does. The timer of the monitor is
  \<^verbatim>\<open>time.Duration(idleTimeout) * time.Second\<close>, a product of 64-bit integers that wraps
  around.
\<close>

definition wrap64 :: "int \<Rightarrow> int" where
  "wrap64 x = (x + 2 ^ 63) mod 2 ^ 64 - 2 ^ 63"

definition Second :: int where
  "Second = 1000000000"

definition idle_timer :: "Config \<Rightarrow> int" where
  "idle_timer config = wrap64 (idleTimeout config * Second)"

text \<open>
  Lines 274-287: the loop of the monitor. \<open>d\<close> is the timer, \<open>now\<close> the time at which the
  round of the loop begins, \<open>msgs\<close> what the channel \<^verbatim>\<open>connTrackChannel\<close> will deliver, in
  order: \<open>(t, inc)\<close> is the value \<open>inc\<close>, ready to be received from time \<open>t\<close> on. The
  process lives until the time \<open>until\<close>. The result is the list of the times at which the
  monitor executes \<^verbatim>\<open>go shutdown()\<close>.

  With no active connection the \<^verbatim>\<open>select\<close> receives the next value if it is ready before
  the fresh timer \<^verbatim>\<open>time.After(d)\<close> expires at \<open>now + d\<close>; otherwise the timer expires,
  \<^verbatim>\<open>shutdown\<close> is started, and the loop goes round with the count unchanged. (When both
  are ready at the same instant Go may take either; the model takes the timer.) With
  active connections the loop waits for the next value, however long. The test
  \<open>0 < d\<close> holds wherever the loop runs (see \<open>inactiveAutoShutdown\<close>); it makes the
  recursion end.
\<close>

function monitor_loop :: "int \<Rightarrow> int \<Rightarrow> int \<Rightarrow> (int \<times> int) list \<Rightarrow> int \<Rightarrow> int list" where
  "monitor_loop d activeConnections now [] until =
     (if activeConnections = 0
      then (if 0 < d \<and> now + d < until
            then (now + d) # monitor_loop d activeConnections (now + d) [] until
            else [])
      else [])"
| "monitor_loop d activeConnections now ((t, inc) # msgs) until =
     (if activeConnections = 0
      then (if t < now + d
            then monitor_loop d (activeConnections + inc) (max t now) msgs until
            else if 0 < d \<and> now + d < until
            then (now + d) # monitor_loop d activeConnections (now + d) ((t, inc) # msgs) until
            else [])
      else monitor_loop d (activeConnections + inc) (max t now) msgs until)"
  by pat_completeness auto
termination
  by (relation "measures [\<lambda>(d, a, now, msgs, until). length msgs,
                          \<lambda>(d, a, now, msgs, until). nat (until - now)]") auto

text \<open>
  Lines 273-288, from the start of the monitor at time \<open>0\<close>. \<^verbatim>\<open>startHTTP\<close> starts the
  monitor only for a positive idle timeout. If the product has wrapped around to a timer
  that is not positive, every round of the loop starts \<^verbatim>\<open>shutdown\<close> at once, without end:
  the result is \<open>None\<close>.
\<close>

definition inactiveAutoShutdown :: "Config \<Rightarrow> (int \<times> int) list \<Rightarrow> int \<Rightarrow> int list option" where
  "inactiveAutoShutdown config msgs until =
     (if idle_timer config \<le> 0 then None
      else Some (monitor_loop (idle_timer config) 0 0 msgs until))"

declare monitor_loop.simps [simp del]

subsection \<open>Properties of the idle monitor\<close>

lemma idle_timer_seconds:
  "0 < idleTimeout config \<Longrightarrow> idleTimeout config \<le> 9223372036 \<Longrightarrow>
   idle_timer config = idleTimeout config * Second"
  by (simp add: idle_timer_def wrap64_def Second_def)

lemma monitor_loop_fires:
  "0 < d \<Longrightarrow> now + d < until \<Longrightarrow>
   monitor_loop d 0 now [] until = (now + d) # monitor_loop d 0 (now + d) [] until"
  by (subst monitor_loop.simps) simp

lemma monitor_loop_ends:
  "until \<le> now + d \<Longrightarrow> monitor_loop d 0 now [] until = []"
  by (subst monitor_loop.simps) simp

lemma upt_from_1: "[1..<Suc (Suc n)] = 1 # map Suc [1..<Suc n]"
  by (simp only: map_Suc_upt upt_conv_Cons [of 1 "Suc (Suc n)"])

lemma monitor_loop_idle:
  "0 < d \<Longrightarrow> monitor_loop d 0 now [] (now + int n * d + 1) =
     map (\<lambda>k. now + int k * d) [1..<Suc n]"
proof (induction n arbitrary: now)
  case 0
  then show ?case by (simp add: monitor_loop_ends)
next
  case (Suc n)
  have e: "now + int (Suc n) * d + 1 = now + d + int n * d + 1"
    by (simp add: algebra_simps)
  have l: "now + d < now + d + int n * d + 1"
    using Suc.prems by (simp add: add_nonneg_pos)
  have "monitor_loop d 0 now [] (now + d + int n * d + 1) =
        (now + d) # monitor_loop d 0 (now + d) [] (now + d + int n * d + 1)"
    using Suc.prems l by (rule monitor_loop_fires)
  also have "monitor_loop d 0 (now + d) [] (now + d + int n * d + 1) =
        map (\<lambda>k. now + d + int k * d) [1..<Suc n]"
    using Suc.IH [of "now + d"] Suc.prems by simp
  also have "(now + d) # map (\<lambda>k. now + d + int k * d) [1..<Suc n] =
        map (\<lambda>k. now + int k * d) [1..<Suc (Suc n)]"
    by (simp only: upt_from_1) (simp add: algebra_simps comp_def)
  finally show ?case by (simp only: e)
qed

lemma monitor_loop_window:
  "\<forall>x \<in> set (monitor_loop d a now msgs until). now + d \<le> x"
proof (induction d a now msgs until rule: monitor_loop.induct)
  case (1 d a now until)
  show ?case
  proof (cases "a = 0 \<and> 0 < d \<and> now + d < until")
    case True
    then have "monitor_loop d a now [] until = (now + d) # monitor_loop d a (now + d) [] until"
      by (subst monitor_loop.simps) simp
    moreover have "\<forall>x \<in> set (monitor_loop d a (now + d) [] until). now + d + d \<le> x"
      using True "1.IH" by simp
    ultimately show ?thesis using True by auto
  next
    case False
    then have "monitor_loop d a now [] until = []"
      by (subst monitor_loop.simps) auto
    then show ?thesis by simp
  qed
next
  case (2 d a now t inc msgs until)
  consider (recv) "a \<noteq> 0 \<or> t < now + d"
    | (fire) "a = 0" "\<not> t < now + d" "0 < d \<and> now + d < until"
    | (stop) "a = 0" "\<not> t < now + d" "\<not> (0 < d \<and> now + d < until)"
    by blast
  then show ?case
  proof cases
    case recv
    then have "monitor_loop d a now ((t, inc) # msgs) until =
        monitor_loop d (a + inc) (max t now) msgs until"
      by (subst monitor_loop.simps) auto
    moreover have "\<forall>x \<in> set (monitor_loop d (a + inc) (max t now) msgs until). max t now + d \<le> x"
      using recv "2.IH"(1) "2.IH"(3) by (cases "a = 0") auto
    ultimately show ?thesis by (auto simp: max_def split: if_splits)
  next
    case fire
    then have "monitor_loop d a now ((t, inc) # msgs) until =
        (now + d) # monitor_loop d a (now + d) ((t, inc) # msgs) until"
      by (subst monitor_loop.simps) simp
    moreover have "\<forall>x \<in> set (monitor_loop d a (now + d) ((t, inc) # msgs) until). now + d + d \<le> x"
      using fire "2.IH"(2) by simp
    ultimately show ?thesis using fire by auto
  next
    case stop
    then have "monitor_loop d a now ((t, inc) # msgs) until = []"
      by (subst monitor_loop.simps) auto
    then show ?thesis by simp
  qed
qed

lemma monitor_loop_receives:
  "t < now + d \<Longrightarrow> monitor_loop d 0 now ((t, inc) # msgs) until =
     monitor_loop d inc (max t now) msgs until"
  by (subst monitor_loop.simps) simp

text \<open>
  C4, as claimed: after an idle timeout the monitor triggers shutdown exactly once, never
  a second time. With an idle timeout of 5 seconds and no request at all, in a process
  that lives for 35 seconds (a shutdown started at 5 seconds whose wait for an alert
  runs into its 30 seconds), the monitor starts \<^verbatim>\<open>shutdown\<close> six times, every 5 seconds.
\<close>

theorem inactiveAutoShutdown_fires_again:
  "inactiveAutoShutdown idle_config [] 35000000000 =
     Some [5000000000, 10000000000, 15000000000, 20000000000, 25000000000, 30000000000]"
  by (simp add: inactiveAutoShutdown_def idle_timer_def wrap64_def Second_def idle_config_def
      default_config_def monitor_loop_fires monitor_loop_ends)

text \<open>
  C4, amended: for a positive idle timeout of \<open>T\<close> seconds, a monitor that sees no
  connection and no arrival starts \<^verbatim>\<open>shutdown\<close> when \<open>T\<close> seconds have passed, and
  again every \<open>T\<close> seconds for as long as the process lives; it also starts it at
  \<open>T\<close> seconds when the first value arrives no earlier. A value that arrives at a
  time \<open>t\<close> inside the first window, \<open>0 < t < T\<close> seconds, ends that window: no
  shutdown is started at the expiry first scheduled, nor at any time before \<open>t\<close> plus
  \<open>T\<close> seconds.
\<close>

theorem inactiveAutoShutdown_idle_window:
  assumes "0 < idleTimeout config" and "idleTimeout config \<le> 9223372036"
  shows "inactiveAutoShutdown config [] (int n * (idleTimeout config * Second) + 1) =
           Some (map (\<lambda>k. int k * (idleTimeout config * Second)) [1..<Suc n]) \<and>
         (idleTimeout config * Second \<le> t \<and> idleTimeout config * Second < until \<longrightarrow>
            (\<exists>later. inactiveAutoShutdown config ((t, inc) # msgs) until =
               Some (idleTimeout config * Second # later))) \<and>
         (0 < t \<and> t < idleTimeout config * Second \<longrightarrow>
            (\<exists>fired. inactiveAutoShutdown config ((t, inc) # msgs) until = Some fired \<and>
               (\<forall>x \<in> set fired. t + idleTimeout config * Second \<le> x) \<and>
               idleTimeout config * Second \<notin> set fired))"
proof -
  define d where "d = idleTimeout config * Second"
  have d: "idle_timer config = d"
    using assms by (simp add: idle_timer_seconds d_def)
  have pos: "0 < d" using assms(1) by (simp add: d_def Second_def)
  have idle: "inactiveAutoShutdown config [] (int n * d + 1) =
      Some (map (\<lambda>k. int k * d) [1..<Suc n])"
    using pos monitor_loop_idle [of d 0 n] by (simp add: inactiveAutoShutdown_def d)
  have win: "\<exists>fired. inactiveAutoShutdown config ((t, inc) # msgs) until = Some fired \<and>
               (\<forall>x \<in> set fired. t + d \<le> x) \<and> d \<notin> set fired"
    if t: "0 < t \<and> t < d"
  proof -
    have "monitor_loop d 0 0 ((t, inc) # msgs) until = monitor_loop d inc t msgs until"
      using t monitor_loop_receives [of t 0 d inc msgs until] by (simp add: max_def)
    moreover have w: "\<forall>x \<in> set (monitor_loop d inc t msgs until). t + d \<le> x"
      by (rule monitor_loop_window)
    moreover have "d \<notin> set (monitor_loop d inc t msgs until)"
      using w t by auto
    ultimately show ?thesis using pos by (simp add: inactiveAutoShutdown_def d)
  qed
  have first: "\<exists>later. inactiveAutoShutdown config ((t, inc) # msgs) until = Some (d # later)"
    if t: "d \<le> t \<and> d < until"
  proof -
    have "monitor_loop d 0 0 ((t, inc) # msgs) until =
        d # monitor_loop d 0 d ((t, inc) # msgs) until"
      using t pos by (subst monitor_loop.simps) simp
    then show ?thesis using pos by (simp add: inactiveAutoShutdown_def d)
  qed
  show ?thesis using idle win first by (simp add: d_def)
qed

theorem inactiveAutoShutdown_idle_window_witness:
  "0 < idleTimeout idle_config \<and> idleTimeout idle_config \<le> 9223372036 \<and>
   inactiveAutoShutdown idle_config [] 10000000001 = Some [5000000000, 10000000000] \<and>
   inactiveAutoShutdown idle_config [(3000000000, 1), (3500000000, - 1)] 20000000000 =
     Some [8500000000, 13500000000, 18500000000]"
proof -
  have c: "0 < idleTimeout idle_config" "idleTimeout idle_config \<le> 9223372036"
    by (simp_all add: idle_config_def default_config_def)
  have t: "idleTimeout idle_config * Second = 5000000000"
    by (simp add: idle_config_def default_config_def Second_def)
  have u: "[Suc 0..<3] = [1, 2]" by (simp add: upt_rec)
  have "inactiveAutoShutdown idle_config [] 10000000001 = Some [5000000000, 10000000000]"
    using inactiveAutoShutdown_idle_window
      [OF c, where n = 2 and t = 3000000000 and inc = 1 and msgs = "[(3500000000, - 1)]"
        and until = 20000000000]
    by (simp add: t u)
  moreover have "inactiveAutoShutdown idle_config [(3000000000, 1), (3500000000, - 1)] 20000000000 =
     Some [8500000000, 13500000000, 18500000000]"
    by (simp add: inactiveAutoShutdown_def idle_timer_def wrap64_def t monitor_loop.simps)
  ultimately show ?thesis using c by simp
qed

section \<open>The call gateway: \<^verbatim>\<open>runInMainThread\<close> and \<^verbatim>\<open>mainFuncChan\<close>\<close>

text \<open>
  Line 70: the argument \<^verbatim>\<open>f interface{}\<close> is a \<^verbatim>\<open>func()\<close>, a \<^verbatim>\<open>func() interface{}\<close> (with
  the value it returns) or a value of another type. Lines 76, 78: what the closure sends
  on \<^verbatim>\<open>done\<close> is \<^verbatim>\<open>true\<close> or the value of \<^verbatim>\<open>f()\<close>.
\<close>

datatype 'r action = Procedure | Function 'r | NotAFunction

datatype 'r val = True_val | Result 'r

text \<open>
  A call of \<^verbatim>\<open>runInMainThread\<close> is at its send \<^verbatim>\<open>mainFuncChan <- func() {...}\<close> (line 72), at
  its receive \<^verbatim>\<open><-done\<close> (line 81), or has returned a value. The state of the call also
  holds whether the closure has been received from \<^verbatim>\<open>mainFuncChan\<close> and not yet run, the
  buffer of the channel \<^verbatim>\<open>done\<close> (line 71: capacity 1), and how often \<open>f\<close> has been
  called.
\<close>

datatype 'r pc = AtSend | AtReceive | HasReturned "'r val"

record 'r gateway =
  pc :: "'r pc"
  received :: bool
  done_chan :: "'r val option"
  calls :: nat

definition gateway_init :: "'r gateway" where
  "gateway_init = \<lparr>pc = AtSend, received = False, done_chan = None, calls = 0\<rparr>"

text \<open>Lines 72-80: the closure that is sent. The type switch has no default case.\<close>

definition closure :: "'r action \<Rightarrow> 'r gateway \<Rightarrow> 'r gateway" where
  "closure f g =
     (case f of
        Procedure \<Rightarrow> g\<lparr>calls := calls g + 1, done_chan := Some True_val\<rparr>
      | Function r \<Rightarrow> g\<lparr>calls := calls g + 1, done_chan := Some (Result r)\<rparr>
      | NotAFunction \<Rightarrow> g)"

text \<open>
  The steps of one call. Line 68: \<^verbatim>\<open>mainFuncChan = make(chan func())\<close> has no buffer, so
  the send completes only when a task is receiving from the channel. The tasks that
  receive from \<^verbatim>\<open>mainFuncChan\<close> are a parameter of the model: \<open>receivers\<close> is their
  number, and a task that has received the closure runs it (this is the worker that
  section 4.1 of the specification describes; no function of the source receives from
  the channel). The send \<^verbatim>\<open>done <- ...\<close> of the closure never blocks: the buffer of \<^verbatim>\<open>done\<close>
  has room for the one value that is ever sent on it.
\<close>

definition gateway_step :: "nat \<Rightarrow> 'r action \<Rightarrow> 'r gateway \<Rightarrow> 'r gateway option" where
  "gateway_step receivers f g =
     (case pc g of
        AtSend \<Rightarrow>
          if 0 < receivers then Some (g\<lparr>pc := AtReceive, received := True\<rparr>) else None
      | AtReceive \<Rightarrow>
          (case done_chan g of
             Some v \<Rightarrow> Some (g\<lparr>pc := HasReturned v, done_chan := None\<rparr>)
           | None \<Rightarrow> if received g then Some (closure f (g\<lparr>received := False\<rparr>)) else None)
      | HasReturned v \<Rightarrow> None)"

text \<open>At most \<open>fuel\<close> steps of the call, as far as it gets.\<close>

fun gateway_run :: "nat \<Rightarrow> nat \<Rightarrow> 'r action \<Rightarrow> 'r gateway \<Rightarrow> 'r gateway" where
  "gateway_run 0 receivers f g = g"
| "gateway_run (Suc fuel) receivers f g =
     (case gateway_step receivers f g of
        None \<Rightarrow> g
      | Some g' \<Rightarrow> gateway_run fuel receivers f g')"

text \<open>
  Lines 70-82: the value that the call has returned after at most \<open>fuel\<close> steps (\<open>None\<close>
  while it is blocked), and how often \<open>f\<close> has been called by then.
\<close>

definition runInMainThread :: "nat \<Rightarrow> nat \<Rightarrow> 'r action \<Rightarrow> 'r val option \<times> nat" where
  "runInMainThread fuel receivers f =
     (let g = gateway_run fuel receivers f gateway_init
      in (case pc g of HasReturned v \<Rightarrow> Some v | _ \<Rightarrow> None, calls g))"

text \<open>
  Which of the functions that the source starts as tasks receive from \<^verbatim>\<open>mainFuncChan\<close>:
  none. (\<^verbatim>\<open>handleSignals\<close> receives from \<^verbatim>\<open>signalChan\<close>, \<^verbatim>\<open>inactiveAutoShutdown\<close> from
  \<^verbatim>\<open>connTrackChannel\<close>; \<^verbatim>\<open>main\<close> and the HTTP handlers receive from no channel.)
\<close>

fun receives_mainFuncChan :: "func \<Rightarrow> bool" where
  "receives_mainFuncChan go_handleSignals = False"
| "receives_mainFuncChan go_watchParent = False"
| "receives_mainFuncChan go_inactiveAutoShutdown = False"
| "receives_mainFuncChan go_shutdown = False"
| "receives_mainFuncChan go_ensureSeeding = False"

definition mainFuncChan_receivers :: "event list \<Rightarrow> nat" where
  "mainFuncChan_receivers tr = length (filter receives_mainFuncChan (started tr))"

text \<open>What a call returns for a function: \<^verbatim>\<open>true\<close>, or the value of \<^verbatim>\<open>f()\<close>.\<close>

fun result :: "'r action \<Rightarrow> 'r val" where
  "result Procedure = True_val"
| "result (Function r) = Result r"
| "result NotAFunction = True_val"

subsection \<open>Properties of the call gateway\<close>

lemma run_stuck: "gateway_step receivers f g = None \<Longrightarrow> gateway_run fuel receivers f g = g"
  by (cases fuel) simp_all

lemma run_blocked_at_send: "gateway_run fuel 0 f gateway_init = gateway_init"
  by (rule run_stuck) (simp add: gateway_step_def gateway_init_def)

lemma run_1:
  "0 < receivers \<Longrightarrow> gateway_run (Suc fuel) receivers f gateway_init =
     gateway_run fuel receivers f \<lparr>pc = AtReceive, received = True, done_chan = None, calls = 0\<rparr>"
  by (simp add: gateway_step_def gateway_init_def)

lemma run_2:
  "gateway_run (Suc fuel) receivers f \<lparr>pc = AtReceive, received = True, done_chan = None, calls = 0\<rparr> =
     gateway_run fuel receivers f
       (closure f \<lparr>pc = AtReceive, received = False, done_chan = None, calls = 0\<rparr>)"
  by (simp add: gateway_step_def)

lemma run_3:
  "f \<noteq> NotAFunction \<Longrightarrow>
   gateway_run (Suc fuel) receivers f
       (closure f \<lparr>pc = AtReceive, received = False, done_chan = None, calls = 0\<rparr>) =
     \<lparr>pc = HasReturned (result f), received = False, done_chan = None, calls = 1\<rparr>"
  by (cases f) (simp_all add: gateway_step_def closure_def run_stuck)

lemma run_not_a_function:
  "gateway_run fuel receivers NotAFunction
       (closure NotAFunction \<lparr>pc = AtReceive, received = False, done_chan = None, calls = 0\<rparr>) =
     \<lparr>pc = AtReceive, received = False, done_chan = None, calls = 0\<rparr>"
  by (simp add: gateway_step_def closure_def run_stuck)

text \<open>
  C2, as claimed: every submitted action is enqueued and consumed by a dedicated worker,
  and every call of \<^verbatim>\<open>runInMainThread\<close> returns. In the process that \<^verbatim>\<open>main\<close> starts with the
  default flags, no task receives from \<^verbatim>\<open>mainFuncChan\<close>: a call that submits a function
  returning \<open>7\<close> cannot take a step from its send, the function is not called, and the
  call does not return.
\<close>

theorem runInMainThread_blocks_without_receiver:
  "mainFuncChan_receivers (main default_config (Some (''magnet'', '''')) 4 ''movie'') = 0 \<and>
   gateway_step (mainFuncChan_receivers (main default_config (Some (''magnet'', '''')) 4 ''movie''))
     (Function (7::nat)) gateway_init = None \<and>
   runInMainThread 3 (mainFuncChan_receivers (main default_config (Some (''magnet'', '''')) 4 ''movie''))
     (Function (7::nat)) = (None, 0)"
proof -
  have "mainFuncChan_receivers (main default_config (Some (''magnet'', '''')) 4 ''movie'') = 0"
    by (simp add: mainFuncChan_receivers_def main_def started_append started_startHTTP
        configureSession_def startServices_def default_config_def)
  then show ?thesis
    by (simp add: runInMainThread_def run_blocked_at_send) (simp add: gateway_step_def gateway_init_def)
qed

text \<open>
  C2, amended: an action submitted through \<^verbatim>\<open>runInMainThread\<close> is offered on the
  unbuffered channel \<^verbatim>\<open>mainFuncChan\<close>, and the call blocks at the send until a task
  receives the closure. With a receiving task and a function as argument, the call
  returns after three steps (the hand-over, the run of the closure, the receive from
  \<^verbatim>\<open>done\<close>): the function has been called exactly once, and the value returned is
  \<^verbatim>\<open>true\<close> for a \<^verbatim>\<open>func()\<close> and the function's value for a \<^verbatim>\<open>func() interface{}\<close>; the
  call does not return before the function has been called. With no receiving task, or
  with an argument that is not such a function, the call never returns.
\<close>

theorem runInMainThread_returns_after_run:
  "(0 < receivers \<and> f \<noteq> NotAFunction \<and> 3 \<le> fuel \<longrightarrow>
      runInMainThread fuel receivers f = (Some (result f), 1)) \<and>
   (0 < receivers \<and> f \<noteq> NotAFunction \<longrightarrow>
      runInMainThread 0 receivers f = (None, 0) \<and>
      runInMainThread 1 receivers f = (None, 0) \<and>
      runInMainThread 2 receivers f = (None, 1)) \<and>
   runInMainThread fuel 0 f = (None, 0) \<and>
   runInMainThread fuel receivers NotAFunction = (None, 0)"
proof (intro conjI impI)
  assume a: "0 < receivers \<and> f \<noteq> NotAFunction \<and> 3 \<le> fuel"
  then obtain n where n: "fuel = Suc (Suc (Suc n))"
    by (metis Suc_le_D numeral_3_eq_3 Suc_le_mono)
  show "runInMainThread fuel receivers f = (Some (result f), 1)"
    using a by (simp add: runInMainThread_def n run_1 run_2 run_3 del: gateway_run.simps)
next
  assume a: "0 < receivers \<and> f \<noteq> NotAFunction"
  show "runInMainThread 0 receivers f = (None, 0)"
    by (simp add: runInMainThread_def gateway_init_def)
  have "runInMainThread (Suc 0) receivers f = (None, 0)"
    using a by (simp add: runInMainThread_def run_1 del: gateway_run.simps) simp
  then show "runInMainThread 1 receivers f = (None, 0)" by simp
  have "runInMainThread (Suc (Suc 0)) receivers f = (None, 1)"
    using a
    by (cases f) (simp_all add: runInMainThread_def run_1 run_2 closure_def del: gateway_run.simps, simp_all)
  then show "runInMainThread 2 receivers f = (None, 1)" by (simp add: numeral_2_eq_2)
next
  show "runInMainThread fuel 0 f = (None, 0)"
    by (simp add: runInMainThread_def run_blocked_at_send) (simp add: gateway_init_def)
next
  show "runInMainThread fuel receivers NotAFunction = (None, 0)"
  proof (cases "0 < receivers")
    case False
    then show ?thesis
      by (simp add: runInMainThread_def run_blocked_at_send) (simp add: gateway_init_def)
  next
    case True
    show ?thesis
    proof (cases fuel)
      case 0
      then show ?thesis by (simp add: runInMainThread_def gateway_init_def)
    next
      case (Suc n)
      show ?thesis
      proof (cases n)
        case 0
        with Suc True show ?thesis
          by (simp add: runInMainThread_def run_1 del: gateway_run.simps) simp
      next
        case (Suc m)
        with \<open>fuel = Suc n\<close> True show ?thesis
          by (simp add: runInMainThread_def run_1 run_2 run_not_a_function del: gateway_run.simps)
      qed
    qed
  qed
qed

theorem runInMainThread_returns_after_run_witness:
  "runInMainThread 3 1 (Function (7::nat)) = (Some (Result 7), 1) \<and>
   runInMainThread 2 1 (Function (7::nat)) = (None, 1) \<and>
   runInMainThread 1 1 (Function (7::nat)) = (None, 0) \<and>
   runInMainThread 3 0 (Function (7::nat)) = (None, 0)"
proof -
  have h: "0 < (1::nat) \<and> Function (7::nat) \<noteq> NotAFunction \<and> (3::nat) \<le> 3"
    by simp
  have r: "result (Function (7::nat)) = Result 7" by simp
  show ?thesis
    using h runInMainThread_returns_after_run [of 1 "Function (7::nat)" 3]
    unfolding r by blast
qed

end
